theory Spec2Isabelle
  imports Complex_Main "HOL-Library.Sublist"
begin

section \<open>ConsoleTools: colour codes\<close>

text \<open>
  The members of \<^verbatim>\<open>struct Color\<close> that the builders below use. Each is the escape
  character (octal 033, hexadecimal 1B) followed by the printable rest of the sequence.
  A colour parameter is a \<^verbatim>\<open>std::string\<close> like any other; the synonym only names
  its role.
\<close>

type_synonym color = string

definition ESC :: char where
  "ESC = CHR 0x1B"

definition RESET :: color where
  "RESET = ESC # ''[0m''"

definition LIGHT_RED :: color where
  "LIGHT_RED = ESC # ''[91m''"

definition LIGHT_YELLOW :: color where
  "LIGHT_YELLOW = ESC # ''[93m''"

definition GREEN :: color where
  "GREEN = ESC # ''[32m''"

definition WHITE :: color where
  "WHITE = ESC # ''[37m''"

section \<open>The counting loop of the builders\<close>

text \<open>
  Every repeated segment is built by the same loop,
  \<^verbatim>\<open>for (int i = 0; i < n; i++) s.append(piece);\<close>
  (\<^verbatim>\<open>push_back(c)\<close> is the case of a one-character piece). The loop variable runs
  from \<open>i\<close> up to \<open>n\<close>, so it never passes the largest \<^verbatim>\<open>int\<close> and the
  unbounded \<open>int\<close> of HOL behaves as the machine integer does.
\<close>

function append_loop :: "int \<Rightarrow> int \<Rightarrow> string \<Rightarrow> string \<Rightarrow> string" where
  "append_loop i n piece s = (if i < n then append_loop (i + 1) n piece (s @ piece) else s)"
  by pat_completeness auto
termination
  by (relation "measure (\<lambda>(i, n, piece, s). nat (n - i))") auto

declare append_loop.simps [simp del]

section \<open>Spacing, Header, AdvancedHeader\<close>

definition Spacing :: "int \<Rightarrow> string" where
  "Spacing NumberOfSpaces = append_loop 0 NumberOfSpaces ''\<newline>'' []"

definition Header ::
  "string \<Rightarrow> int \<Rightarrow> string \<Rightarrow> string \<Rightarrow> color \<Rightarrow> color \<Rightarrow> color \<Rightarrow> string" where
  "Header LineCharacter LineCharacterCount HeaderText SpacingCharacter
          LineColor HeaderTextColor SpacingCharacterColor =
    (let lineSegment = append_loop 0 LineCharacterCount LineCharacter [];
         header = [];
         header = header @ LineColor;
         header = header @ lineSegment;
         header = header @ SpacingCharacterColor;
         header = header @ SpacingCharacter;
         header = header @ HeaderTextColor;
         header = header @ HeaderText;
         header = header @ SpacingCharacterColor;
         header = header @ SpacingCharacter;
         header = header @ LineColor;
         header = header @ lineSegment;
         header = header @ RESET
     in header)"

definition AdvancedHeader ::
  "string \<Rightarrow> int \<Rightarrow> string \<Rightarrow> int \<Rightarrow> string \<Rightarrow> string \<Rightarrow> color \<Rightarrow> color \<Rightarrow> color \<Rightarrow> color
     \<Rightarrow> bool \<Rightarrow> string" where
  "AdvancedHeader LeftLineCharacter LeftLineCharacterCount RightLineCharacter
          RightLineCharacterCount HeaderText SpacingCharacter LeftLineColor RightLineColor
          HeaderTextColor SpacingCharacterColor ResetColorOnEnd =
    (let LlineSegment = append_loop 0 LeftLineCharacterCount LeftLineCharacter [];
         RlineSegment = append_loop 0 RightLineCharacterCount RightLineCharacter [];
         header = [];
         header = header @ LeftLineColor;
         header = header @ LlineSegment;
         header = header @ SpacingCharacterColor;
         header = header @ SpacingCharacter;
         header = header @ HeaderTextColor;
         header = header @ HeaderText;
         header = header @ SpacingCharacterColor;
         header = header @ SpacingCharacter;
         header = header @ RightLineColor;
         header = header @ RlineSegment;
         header = (if ResetColorOnEnd then header @ RESET else header)
     in header)"

section \<open>Error and Warning\<close>

definition Error :: "string \<Rightarrow> string" where
  "Error Message =
    (let error = [];
         error = error @ LIGHT_RED;
         error = error @ ''[ERROR]: '';
         error = error @ Message
     in error)"

definition Warning :: "string \<Rightarrow> string" where
  "Warning Message =
    (let warning = [];
         warning = warning @ LIGHT_YELLOW;
         warning = warning @ ''[WARNING]: '';
         warning = warning @ Message
     in warning)"

section \<open>Arithmetic of the progress bars\<close>

subsection \<open>Values of type \<^verbatim>\<open>double\<close>\<close>

text \<open>
  The progress fraction is a \<^verbatim>\<open>double\<close>. The model is IEEE 754 binary64 with the
  default rounding (to nearest, ties to even): a finite value is the rational number it
  denotes, and every operation rounds its exact result to 53 significant bits. The
  quantities that occur are quotients and products of 32-bit integers, whose magnitudes
  lie between \<open>2\<^sup>-\<^sup>3\<^sup>1\<close> and \<open>2\<^sup>6\<^sup>2\<close>, far inside the normal range, so the
  exponent is left unbounded. The sign of a zero is not recorded: the program only
  multiplies the fraction and converts it to \<^verbatim>\<open>int\<close>, and both zeros convert to 0.
\<close>

datatype double = Finite rat | PlusInf | MinusInf | NaN

text \<open>The number of binary digits of a positive integer.\<close>

function bitlen :: "int \<Rightarrow> int" where
  "bitlen n = (if n \<le> 0 then 0 else 1 + bitlen (n div 2))"
  by pat_completeness auto
termination
  by (relation "measure nat") auto

declare bitlen.simps [simp del]

definition pow2 :: "int \<Rightarrow> rat" where
  "pow2 e = (if 0 \<le> e then 2 ^ nat e else 1 / 2 ^ nat (- e))"

text \<open>For \<open>q > 0\<close>, \<open>binade q\<close> is the exponent \<open>e\<close> with \<open>2\<^sup>e \<le> q < 2\<^sup>e\<^sup>+\<^sup>1\<close>.\<close>

definition binade :: "rat \<Rightarrow> int" where
  "binade q =
    (let (a, b) = quotient_of q;
         e0 = bitlen a - bitlen b
     in if pow2 e0 \<le> q then e0 else e0 - 1)"

definition round_half_even :: "rat \<Rightarrow> int" where
  "round_half_even r =
    (let f = \<lfloor>r\<rfloor>; d = r - of_int f
     in if d < 1 / 2 then f
        else if 1 / 2 < d then f + 1
        else if even f then f else f + 1)"

definition round53 :: "rat \<Rightarrow> rat" where
  "round53 q =
    (if q = 0 then 0
     else let u = pow2 (binade \<bar>q\<bar> - 52)
          in sgn q * of_int (round_half_even (\<bar>q\<bar> / u)) * u)"

text \<open>
  \<^verbatim>\<open>static_cast<double>(a) / b\<close> with \<^verbatim>\<open>int\<close> operands: \<open>b\<close> is promoted to
  \<^verbatim>\<open>double\<close>. In IEEE 754 arithmetic a division by zero does not trap: a zero divisor
  gives NaN for a zero dividend and an infinity otherwise.
\<close>

definition fdiv_int :: "int \<Rightarrow> int \<Rightarrow> double" where
  "fdiv_int a b =
    (if b = 0 then (if a = 0 then NaN else if 0 < a then PlusInf else MinusInf)
     else Finite (round53 (round53 (of_int a) / round53 (of_int b))))"

text \<open>\<^verbatim>\<open>x * k\<close> with \<open>x\<close> a \<^verbatim>\<open>double\<close> and \<open>k\<close> an \<^verbatim>\<open>int\<close> promoted to \<^verbatim>\<open>double\<close>.\<close>

fun fmul_int :: "double \<Rightarrow> int \<Rightarrow> double" where
  "fmul_int NaN k = NaN"
| "fmul_int PlusInf k = (if k = 0 then NaN else if 0 < k then PlusInf else MinusInf)"
| "fmul_int MinusInf k = (if k = 0 then NaN else if 0 < k then MinusInf else PlusInf)"
| "fmul_int (Finite x) k = Finite (round53 (x * round53 (of_int k)))"

text \<open>
  \<^verbatim>\<open>static_cast<int>(x)\<close> truncates towards zero. The conversion is undefined when the
  truncated value is not a value of \<^verbatim>\<open>int\<close>, which includes NaN and the infinities;
  the model returns that as a fault instead of a number.
\<close>

datatype fault = Undefined_conversion

definition INT_MIN :: int where
  "INT_MIN = - 2147483648"

definition INT_MAX :: int where
  "INT_MAX = 2147483647"

definition trunc_to_zero :: "rat \<Rightarrow> int" where
  "trunc_to_zero x = (if 0 \<le> x then \<lfloor>x\<rfloor> else \<lceil>x\<rceil>)"

fun to_int :: "double \<Rightarrow> fault + int" where
  "to_int (Finite x) =
     (let t = trunc_to_zero x
      in if INT_MIN \<le> t \<and> t \<le> INT_MAX then Inr t else Inl Undefined_conversion)"
| "to_int PlusInf = Inl Undefined_conversion"
| "to_int MinusInf = Inl Undefined_conversion"
| "to_int NaN = Inl Undefined_conversion"

subsection \<open>Decimal text of a number\<close>

text \<open>
  \<^verbatim>\<open>std::to_string\<close> of an \<^verbatim>\<open>int\<close> and the stream output of a \<^verbatim>\<open>size_t\<close>: decimal digits
  without leading zeros, and a minus sign for a negative value.
\<close>

definition digit_char :: "int \<Rightarrow> char" where
  "digit_char d = char_of (48 + d)"

function dec :: "int \<Rightarrow> string" where
  "dec n = (if n < 10 then [digit_char n] else dec (n div 10) @ [digit_char (n mod 10)])"
  by pat_completeness auto
termination
  by (relation "measure nat") auto

declare dec.simps [simp del]

definition to_string :: "int \<Rightarrow> string" where
  "to_string i = (if i < 0 then CHR ''-'' # dec (- i) else dec i)"

section \<open>ProgressBar and AdvancedProgressBar\<close>

text \<open>
  Both functions return the bar, or the fault of a conversion that has no defined result.
  When the conversion succeeds the filled width lies between 0 and the bar width, so
  the subtraction that gives the remaining width stays inside \<^verbatim>\<open>int\<close>.
\<close>

definition ProgressBar :: "int \<Rightarrow> int \<Rightarrow> int \<Rightarrow> color \<Rightarrow> bool \<Rightarrow> color \<Rightarrow> fault + string" where
  "ProgressBar CurrentProgress MaxProgress BarWidth BarColor ShowPercentage PercentageColor =
    (let CurrentProgress = (if CurrentProgress > MaxProgress then MaxProgress else CurrentProgress);
         CurrentProgress = (if CurrentProgress < 0 then 0 else CurrentProgress);
         progress = fdiv_int CurrentProgress MaxProgress
     in case to_int (fmul_int progress BarWidth) of
          Inl e \<Rightarrow> Inl e
        | Inr filledWidth \<Rightarrow>
            let remainingWidth = BarWidth - filledWidth;
                bar = [];
                bar = bar @ BarColor;
                bar = append_loop 0 filledWidth ''#'' bar;
                bar = append_loop 0 remainingWidth ''-'' bar;
                bar = bar @ RESET
            in if ShowPercentage then
                 (case to_int (fmul_int progress 100) of
                    Inl e \<Rightarrow> Inl e
                  | Inr percentage \<Rightarrow>
                      let bar = bar @ '' '';
                          bar = bar @ PercentageColor;
                          bar = bar @ to_string percentage;
                          bar = bar @ ''%'';
                          bar = bar @ RESET
                      in Inr bar)
               else Inr bar)"

definition AdvancedProgressBar ::
  "int \<Rightarrow> int \<Rightarrow> int \<Rightarrow> string \<Rightarrow> string \<Rightarrow> string \<Rightarrow> string \<Rightarrow> color \<Rightarrow> color \<Rightarrow> color
     \<Rightarrow> color \<Rightarrow> color \<Rightarrow> color \<Rightarrow> bool \<Rightarrow> bool \<Rightarrow> bool \<Rightarrow> fault + string" where
  "AdvancedProgressBar CurrentPercentage MaxPercentage BarWidth PrefixText SuffixText
          FillChar UnfilledChar FillColor UnfilledColor TextColor PrefixColor SuffixColor
          BracketColor ShowPercentage ShowBrackets ResetColorOnCompletion =
    (let CurrentPercentage = (if CurrentPercentage < 0 then 0 else CurrentPercentage);
         CurrentPercentage =
           (if CurrentPercentage > MaxPercentage then MaxPercentage else CurrentPercentage);
         progress =
           (if MaxPercentage \<noteq> 0 then fdiv_int CurrentPercentage MaxPercentage else Finite 0)
     in case to_int (fmul_int progress BarWidth) of
          Inl e \<Rightarrow> Inl e
        | Inr filledWidth \<Rightarrow>
            let remainingWidth = BarWidth - filledWidth;
                result = [];
                result = (if PrefixText \<noteq> [] then (result @ PrefixColor) @ PrefixText else result);
                result = (if ShowBrackets then (result @ BracketColor) @ ''['' else result);
                result = result @ FillColor;
                result = append_loop 0 filledWidth FillChar result;
                result = result @ UnfilledColor;
                result = append_loop 0 remainingWidth UnfilledChar result
            in let result = (if ShowBrackets then (result @ BracketColor) @ '']'' else result)
            in case (if ShowPercentage then
                       (case to_int (fmul_int progress 100) of
                          Inl e \<Rightarrow> Inl e
                        | Inr percentageValue \<Rightarrow>
                            Inr ((((result @ TextColor) @ '' '') @ to_string percentageValue) @ ''%''))
                     else Inr result) of
                 Inl e \<Rightarrow> Inl e
               | Inr result \<Rightarrow>
                   let result =
                         (if SuffixText \<noteq> [] then ((result @ '' '') @ SuffixColor) @ SuffixText
                          else result);
                       result = (if ResetColorOnCompletion then result @ RESET else result)
                   in Inr result)"

section \<open>PromptNumberedMenu\<close>

subsection \<open>The console\<close>

text \<open>
  The function reads \<^verbatim>\<open>std::cin\<close> and writes \<^verbatim>\<open>std::cout\<close> and \<^verbatim>\<open>std::cerr\<close>. The
  console is the state it threads: the lines still to be read, and the text written so
  far to each output stream. \<^verbatim>\<open>std::getline\<close> fails when no line is left.
\<close>

record console =
  cin :: "string list"
  cout :: string
  cerr :: string

definition getline :: "console \<Rightarrow> string option \<times> console" where
  "getline io = (case cin io of [] \<Rightarrow> (None, io) | l # ls \<Rightarrow> (Some l, io\<lparr>cin := ls\<rparr>))"

subsection \<open>\<^verbatim>\<open>std::stoi\<close>\<close>

text \<open>
  \<^verbatim>\<open>std::stoi(input)\<close> with base 10 skips leading white space, takes an optional sign and
  the longest run of decimal digits, and ignores whatever follows. It throws
  \<^verbatim>\<open>std::invalid_argument\<close> when there is no digit to convert and \<^verbatim>\<open>std::out_of_range\<close>
  when the number is not a value of \<^verbatim>\<open>int\<close>.
\<close>

datatype stoi_error = invalid_argument | out_of_range

definition isspace :: "char \<Rightarrow> bool" where
  "isspace c = (c \<in> set [CHR '' '', CHR 0x09, CHR 0x0A, CHR 0x0B, CHR 0x0C, CHR 0x0D])"

definition isdigit :: "char \<Rightarrow> bool" where
  "isdigit c = (c \<in> set ''0123456789'')"

definition digits_value :: "string \<Rightarrow> int" where
  "digits_value ds = foldl (\<lambda>v c. 10 * v + (of_char c - 48)) 0 ds"

definition stoi :: "string \<Rightarrow> stoi_error + int" where
  "stoi str =
    (let s1 = dropWhile isspace str;
         (negative, s2) =
           (case s1 of
              [] \<Rightarrow> (False, s1)
            | c # rest \<Rightarrow>
                if c = CHR ''-'' then (True, rest)
                else if c = CHR ''+'' then (False, rest)
                else (False, s1));
         ds = takeWhile isdigit s2
     in if ds = [] then Inl invalid_argument
        else let v = (if negative then - digits_value ds else digits_value ds)
             in if v < INT_MIN \<or> INT_MAX < v then Inl out_of_range else Inr v)"

subsection \<open>The menu\<close>

text \<open>\<^verbatim>\<open>static_cast<int>\<close> of a \<^verbatim>\<open>size_t\<close>: the low 32 bits, read as two's complement.\<close>

definition static_cast_int :: "nat \<Rightarrow> int" where
  "static_cast_int n =
    (let r = int n mod 4294967296 in if r < 2147483648 then r else r - 4294967296)"

text \<open>The loop that prints the options, one line each, numbered from 1.\<close>

function print_option_lines ::
  "nat \<Rightarrow> string list \<Rightarrow> color \<Rightarrow> color \<Rightarrow> string \<Rightarrow> color \<Rightarrow> string \<Rightarrow> string" where
  "print_option_lines i Options NumberColor SeperatorColor SeperatorCharacter OptionColor out =
    (if i < length Options
     then print_option_lines (i + 1) Options NumberColor SeperatorColor SeperatorCharacter OptionColor
            (out @ NumberColor @ dec (int i + 1) @ SeperatorColor @ SeperatorCharacter
                 @ OptionColor @ Options ! i @ RESET @ ''\<newline>'')
     else out)"
  by pat_completeness auto
termination
  by (relation "measure (\<lambda>(i, Options, _). length Options - i)") auto

declare print_option_lines.simps [simp del]

text \<open>Everything written between the emptiness check and the read of the input line.\<close>

definition print_menu ::
  "string list \<Rightarrow> string \<Rightarrow> string \<Rightarrow> string \<Rightarrow> color \<Rightarrow> color \<Rightarrow> color \<Rightarrow> color \<Rightarrow> color
     \<Rightarrow> console \<Rightarrow> console" where
  "print_menu Options SeperatorCharacter PromptMessage InputQuestionText MessageColor
          NumberColor SeperatorColor OptionColor InputQuestionColor io =
    (let io = io\<lparr>cout := cout io @ MessageColor @ PromptMessage @ ''\<newline>''\<rparr>;
         io = io\<lparr>cout := print_option_lines 0 Options NumberColor SeperatorColor SeperatorCharacter
                            OptionColor (cout io)\<rparr>;
         io = io\<lparr>cout := cout io @ InputQuestionColor @ ''\<newline>'' @ InputQuestionText
                            @ NumberColor\<rparr>
     in io)"

definition PromptNumberedMenu ::
  "string list \<Rightarrow> string \<Rightarrow> string \<Rightarrow> string \<Rightarrow> color \<Rightarrow> color \<Rightarrow> color \<Rightarrow> color \<Rightarrow> color
     \<Rightarrow> color \<Rightarrow> console \<Rightarrow> int \<times> console" where
  "PromptNumberedMenu Options SeperatorCharacter PromptMessage InputQuestionText MessageColor
          NumberColor SeperatorColor OptionColor InputQuestionColor ErrorColor io =
    (if Options = [] then (- 1, io\<lparr>cerr := cerr io @ ''No menu options provided.\<newline>''\<rparr>)
     else
       let io = print_menu Options SeperatorCharacter PromptMessage InputQuestionText
                  MessageColor NumberColor SeperatorColor OptionColor InputQuestionColor io
       in case getline io of
            (None, io) \<Rightarrow>
              (- 1, io\<lparr>cout := cout io @ ErrorColor @ RESET,
                        cerr := cerr io @ ''Input error. Exiting.\<newline>''\<rparr>)
          | (Some input, io) \<Rightarrow>
              (case stoi input of
                 Inr choice \<Rightarrow>
                   if choice < 1 \<or> choice > static_cast_int (length Options)
                   then (- 1, io\<lparr>cout := cout io @ ErrorColor
                           @ ''Invalid choice. Please enter a number between 1 and ''
                           @ dec (int (length Options)) @ ''.\<newline>\<newline>'' @ RESET @ RESET\<rparr>)
                   else (choice - 1, io\<lparr>cout := cout io @ RESET\<rparr>)
               | Inl invalid_argument \<Rightarrow>
                   (- 1, io\<lparr>cout := cout io @ ErrorColor
                           @ ''Invalid input. Please enter a numeric value.\<newline>\<newline>''
                           @ RESET @ RESET\<rparr>)
               | Inl out_of_range \<Rightarrow>
                   (- 1, io\<lparr>cout := cout io @ ErrorColor
                           @ ''The number you entered is out of range. Please try again.\<newline>\<newline>''
                           @ RESET @ RESET\<rparr>)))"

section \<open>Properties of the counting loop\<close>

lemma append_loop_from:
  "append_loop i n piece s = s @ concat (replicate (nat (n - i)) piece)"
proof (induction i n piece s rule: append_loop.induct)
  case (1 i n piece s)
  show ?case
  proof (cases "i < n")
    case True
    then have "nat (n - i) = Suc (nat (n - (i + 1)))"
      by simp
    with True "1.IH" show ?thesis
      by (subst append_loop.simps) simp
  next
    case False
    then show ?thesis
      by (subst append_loop.simps) simp
  qed
qed

lemma append_loop_acc:
  "append_loop 0 n piece s = s @ concat (replicate (nat n) piece)"
  by (simp add: append_loop_from)

lemma append_loop_zero:
  "append_loop 0 n piece [] = concat (replicate (nat n) piece)"
  by (simp add: append_loop_from)

lemma concat_replicate_single: "concat (replicate k [c]) = replicate k c"
  by (induction k) simp_all

section \<open>Spacing\<close>

text \<open>
  Claim C9. For every integer \<open>n\<close>, \<open>Spacing n\<close> is \<open>n\<close> newline characters and nothing
  else when \<open>n > 0\<close>, and the empty string when \<open>n\<close> is zero or negative.
\<close>

theorem Spacing_newlines:
  "Spacing n = replicate (nat n) CHR 0x0A
   \<and> (0 < n \<longrightarrow> int (length (Spacing n)) = n \<and> set (Spacing n) = {CHR 0x0A})
   \<and> (n \<le> 0 \<longrightarrow> Spacing n = [])"
  by (simp add: Spacing_def append_loop_zero concat_replicate_single)

text \<open>\<open>Spacing 3\<close> is three newlines and \<open>Spacing (-1)\<close> is empty.\<close>

theorem Spacing_newlines_witness:
  "(0::int) < 3 \<and> Spacing 3 = ''\<newline>\<newline>\<newline>'' \<and> (- 1::int) \<le> 0 \<and> Spacing (- 1) = []"
  using Spacing_newlines [of 3] Spacing_newlines [of "- 1"]
  by (simp add: eval_nat_numeral)

section \<open>Header and AdvancedHeader\<close>

text \<open>
  Claim C4. For all inputs, \<open>Header\<close> returns the line colour, the line character repeated
  \<open>lineCount\<close> times, the spacing colour and character, the text colour and the text, the
  spacing colour and character again, the line colour and the repeated line character
  again, and the reset sequence. A negative count gives an empty repeated segment, and
  the result always ends with the reset sequence.
\<close>

theorem Header_format:
  "Header lineChar lineCount text spaceChar lineColor textColor spaceColor =
     lineColor @ concat (replicate (nat lineCount) lineChar) @ spaceColor @ spaceChar
       @ textColor @ text @ spaceColor @ spaceChar
       @ lineColor @ concat (replicate (nat lineCount) lineChar) @ RESET
   \<and> (lineCount < 0 \<longrightarrow>
        Header lineChar lineCount text spaceChar lineColor textColor spaceColor =
          lineColor @ spaceColor @ spaceChar @ textColor @ text @ spaceColor @ spaceChar
            @ lineColor @ RESET)
   \<and> suffix RESET (Header lineChar lineCount text spaceChar lineColor textColor spaceColor)"
  by (simp add: Header_def append_loop_zero Let_def suffix_def)

text \<open>The header of the text \<open>HI\<close> with three and with minus two line characters.\<close>

theorem Header_format_witness:
  "Header ''='' 3 ''HI'' '' '' GREEN WHITE LIGHT_RED =
     GREEN @ ''==='' @ LIGHT_RED @ '' '' @ WHITE @ ''HI'' @ LIGHT_RED @ '' '' @ GREEN @ ''===''
       @ RESET
   \<and> (- 2 :: int) < 0
   \<and> Header ''='' (- 2) ''HI'' '' '' GREEN WHITE LIGHT_RED =
     GREEN @ LIGHT_RED @ '' '' @ WHITE @ ''HI'' @ LIGHT_RED @ '' '' @ GREEN @ RESET"
  using Header_format [of "''=''" 3 "''HI''" "'' ''" GREEN WHITE LIGHT_RED]
    Header_format [of "''=''" "- 2" "''HI''" "'' ''" GREEN WHITE LIGHT_RED]
  by (simp add: eval_nat_numeral)

text \<open>
  Claim C10. \<open>Header\<close> is the case of \<open>AdvancedHeader\<close> with the same character, count and
  colour on both sides and the reset switched on.
\<close>

theorem Header_is_AdvancedHeader:
  "Header lineChar lineCount text spaceChar lineColor textColor spaceColor =
   AdvancedHeader lineChar lineCount lineChar lineCount text spaceChar lineColor lineColor
     textColor spaceColor True"
  by (simp add: Header_def AdvancedHeader_def Let_def)

text \<open>
  Claim C6 says that the result of \<open>AdvancedHeader\<close> ends with the reset sequence if and
  only if \<open>resetOnEnd\<close> is true. The colours are caller-supplied strings, and
  \<^verbatim>\<open>Color::RESET\<close> is one of them: with it as the right line colour and a right count of
  0, the result ends with the reset sequence although \<open>resetOnEnd\<close> is false.
\<close>

theorem AdvancedHeader_reset_counterexample:
  "\<not> (suffix RESET (AdvancedHeader ''='' 3 ''='' 0 ''HI'' '' '' GREEN RESET WHITE WHITE False)
       \<longleftrightarrow> False)"
  by (simp add: AdvancedHeader_def append_loop_zero Let_def suffix_def eval_nat_numeral)

text \<open>
  Claim C6, amended. With \<open>resetOnEnd\<close> true the result is the result for false followed
  by the reset sequence; with false nothing is appended after the right line segment. So
  the result ends with the reset sequence exactly when \<open>resetOnEnd\<close> is true or the
  pieces supplied by the caller already end with it.
\<close>

theorem AdvancedHeader_reset:
  "AdvancedHeader lch lcount rch rcount text spaceChar lcol rcol textColor spaceColor True =
     AdvancedHeader lch lcount rch rcount text spaceChar lcol rcol textColor spaceColor False
       @ RESET
   \<and> AdvancedHeader lch lcount rch rcount text spaceChar lcol rcol textColor spaceColor False =
     lcol @ concat (replicate (nat lcount) lch) @ spaceColor @ spaceChar @ textColor @ text
       @ spaceColor @ spaceChar @ rcol @ concat (replicate (nat rcount) rch)
   \<and> (suffix RESET
        (AdvancedHeader lch lcount rch rcount text spaceChar lcol rcol textColor spaceColor
           resetOnEnd)
      \<longleftrightarrow> resetOnEnd \<or> suffix RESET
        (AdvancedHeader lch lcount rch rcount text spaceChar lcol rcol textColor spaceColor
           False))"
  by (cases resetOnEnd) (simp_all add: AdvancedHeader_def append_loop_zero Let_def suffix_def)

section \<open>Error and Warning\<close>

text \<open>A tag that ends with a space cannot supply a part of a trailing reset sequence.\<close>

lemma suffix_RESET_tag:
  assumes "tag \<noteq> []" and "last tag = CHR '' ''"
  shows "suffix RESET (tag @ m) \<longleftrightarrow> suffix RESET m"
proof
  assume "suffix RESET (tag @ m)"
  then have "suffix RESET m \<or> (\<exists>xs. RESET = xs @ m \<and> suffix xs tag)"
    by (simp add: suffix_append)
  then show "suffix RESET m"
  proof
    assume "suffix RESET m"
    then show ?thesis .
  next
    assume "\<exists>xs. RESET = xs @ m \<and> suffix xs tag"
    then obtain xs where xs: "RESET = xs @ m" "suffix xs tag"
      by blast
    show ?thesis
    proof (cases "xs = []")
      case True
      with xs show ?thesis
        by simp
    next
      case False
      with xs assms have "last xs = CHR '' ''"
        by (auto simp: suffix_def)
      with False have "CHR '' '' \<in> set xs"
        by (metis last_in_set)
      then have "CHR '' '' \<in> set (xs @ m)"
        by simp
      then have "CHR '' '' \<in> set RESET"
        by (simp only: xs(1) [symmetric])
      then show ?thesis
        by (simp add: RESET_def ESC_def)
    qed
  qed
next
  assume "suffix RESET m"
  then show "suffix RESET (tag @ m)"
    by (simp add: suffix_append)
qed

text \<open>
  Claim C8. For every message \<open>m\<close>, \<open>Error m\<close> is exactly the light red code, the tag
  \<open>[ERROR]: \<close> and \<open>m\<close>, and \<open>Warning m\<close> is exactly the light yellow code, the tag
  \<open>[WARNING]: \<close> and \<open>m\<close>. Neither result has a reset sequence after the message:
  nothing follows \<open>m\<close>, so a result ends with the reset sequence only when the message
  passed in ends with it.
\<close>

theorem Error_Warning_format:
  "Error m = LIGHT_RED @ ''[ERROR]: '' @ m
   \<and> Warning m = LIGHT_YELLOW @ ''[WARNING]: '' @ m
   \<and> (suffix RESET (Error m) \<longleftrightarrow> suffix RESET m)
   \<and> (suffix RESET (Warning m) \<longleftrightarrow> suffix RESET m)"
proof -
  have e: "Error m = (LIGHT_RED @ ''[ERROR]: '') @ m"
    by (simp add: Error_def Let_def)
  have w: "Warning m = (LIGHT_YELLOW @ ''[WARNING]: '') @ m"
    by (simp add: Warning_def Let_def)
  have "suffix RESET (Error m) \<longleftrightarrow> suffix RESET m"
    unfolding e by (rule suffix_RESET_tag) simp_all
  moreover have "suffix RESET (Warning m) \<longleftrightarrow> suffix RESET m"
    unfolding w by (rule suffix_RESET_tag) simp_all
  ultimately show ?thesis
    using e w by simp
qed

section \<open>PromptNumberedMenu\<close>

text \<open>
  Claim C7. With an empty options list, \<open>PromptNumberedMenu\<close> writes an error to
  \<^verbatim>\<open>std::cerr\<close> and returns -1 at once: nothing is written to \<^verbatim>\<open>std::cout\<close> and no
  input line is read.
\<close>

theorem PromptNumberedMenu_empty:
  "PromptNumberedMenu [] sepChar promptMessage question messageColor numberColor sepColor
     optionColor questionColor errorColor io =
   (- 1, io\<lparr>cerr := cerr io @ ''No menu options provided.\<newline>''\<rparr>)"
  by (simp add: PromptNumberedMenu_def)

lemma print_menu_cin:
  "cin (print_menu Options sepChar promptMessage question messageColor numberColor sepColor
          optionColor questionColor io) = cin io"
  by (simp add: print_menu_def Let_def)

lemma print_menu_cerr:
  "cerr (print_menu Options sepChar promptMessage question messageColor numberColor sepColor
          optionColor questionColor io) = cerr io"
  by (simp add: print_menu_def Let_def)

lemma static_cast_int_le: "static_cast_int n \<le> int n"
proof -
  have "int n mod 4294967296 \<le> int n"
    by (rule zmod_le_nonneg_dividend) simp
  then show ?thesis
    by (simp add: static_cast_int_def Let_def)
qed

text \<open>
  Claim C2 says that after an invalid line the function asks again, so that a later
  in-range line still decides the result. The function has no loop: it reads one line and
  returns. With the lines \<open>5\<close> and \<open>1\<close> waiting and two options, the result is not the
  index 0 of the later choice \<open>1\<close>.
\<close>

theorem PromptNumberedMenu_retry_counterexample:
  "fst (PromptNumberedMenu [''A'', ''B''] '': '' ''Pick:'' ''> '' WHITE GREEN WHITE WHITE WHITE
          LIGHT_RED \<lparr>cin = [''5'', ''1''], cout = [], cerr = []\<rparr>) \<noteq> 1 - 1"
  by code_simp

text \<open>
  Claim C2, amended. The line is judged by \<^verbatim>\<open>std::stoi\<close>, which reads the integer at
  the start of the line and ignores the text after its digits. For every non-empty
  options list, when \<^verbatim>\<open>std::stoi\<close> rejects the line read (no integer at its start, or a
  number too large for an \<^verbatim>\<open>int\<close>), or the integer it reads is outside 1 to the
  number of options, the function writes the error colour, the corresponding message
  and the reset sequence, and returns -1 at once. Exactly one line is consumed: the lines
  after it stay unread.
\<close>

theorem PromptNumberedMenu_invalid_line:
  assumes "Options \<noteq> []"
    and "cin io = line # rest"
    and "\<forall>v. stoi line = Inr v \<longrightarrow> v < 1 \<or> int (length Options) < v"
  shows "PromptNumberedMenu Options sepChar promptMessage question messageColor numberColor
           sepColor optionColor questionColor errorColor io =
         (let shown = print_menu Options sepChar promptMessage question messageColor
                        numberColor sepColor optionColor questionColor io;
              message =
                (case stoi line of
                   Inl invalid_argument \<Rightarrow> ''Invalid input. Please enter a numeric value.\<newline>\<newline>''
                 | Inl out_of_range \<Rightarrow>
                     ''The number you entered is out of range. Please try again.\<newline>\<newline>''
                 | Inr v \<Rightarrow>
                     ''Invalid choice. Please enter a number between 1 and ''
                       @ dec (int (length Options)) @ ''.\<newline>\<newline>'')
          in (- 1, \<lparr>cin = rest, cout = cout shown @ errorColor @ message @ RESET @ RESET,
                    cerr = cerr io\<rparr>))"
proof -
  let ?shown = "print_menu Options sepChar promptMessage question messageColor numberColor
                  sepColor optionColor questionColor io"
  have g: "getline ?shown = (Some line, ?shown\<lparr>cin := rest\<rparr>)"
    using assms(2) by (simp add: getline_def print_menu_cin)
  have e: "?shown\<lparr>cin := rest, cout := out\<rparr> = \<lparr>cin = rest, cout = out, cerr = cerr io\<rparr>" for out
    by (simp add: print_menu_cerr)
  show ?thesis
  proof (cases "stoi line")
    case (Inl err)
    then show ?thesis
      using assms(1) g e by (cases err) (simp_all add: PromptNumberedMenu_def Let_def)
  next
    case (Inr v)
    with assms(3) have "v < 1 \<or> int (length Options) < v"
      by simp
    then have "v < 1 \<or> static_cast_int (length Options) < v"
      using static_cast_int_le [of "length Options"] by linarith
    with Inr show ?thesis
      using assms(1) g e by (simp add: PromptNumberedMenu_def Let_def)
  qed
qed

lemma stoi_examples:
  "stoi ''abc'' = Inl invalid_argument"
  "stoi ''99999999999'' = Inl out_of_range"
  "stoi ''5'' = Inr 5"
  by code_simp+

lemma print_menu_AB:
  "print_menu [''A'', ''B''] '': '' ''Pick:'' ''> '' [] [] [] [] []
     \<lparr>cin = line # [''2''], cout = [], cerr = []\<rparr> =
   \<lparr>cin = line # [''2''],
     cout = ''Pick:\<newline>1: A'' @ RESET @ ''\<newline>2: B'' @ RESET @ ''\<newline>\<newline>> '',
     cerr = []\<rparr>"
  by code_simp

text \<open>
  With the options A and B, each of the lines \<open>abc\<close>, \<open>99999999999\<close> and \<open>5\<close> ends the
  call with -1 and its own message, and leaves the following line \<open>2\<close> unread.
\<close>

theorem PromptNumberedMenu_invalid_line_witness:
  "[''A'', ''B''] \<noteq> []
   \<and> PromptNumberedMenu [''A'', ''B''] '': '' ''Pick:'' ''> '' [] [] [] [] [] []
         \<lparr>cin = [''abc'', ''2''], cout = [], cerr = []\<rparr> =
       (- 1, \<lparr>cin = [''2''],
              cout = ''Pick:\<newline>1: A'' @ RESET @ ''\<newline>2: B'' @ RESET @ ''\<newline>\<newline>> ''
                @ ''Invalid input. Please enter a numeric value.\<newline>\<newline>'' @ RESET @ RESET,
              cerr = []\<rparr>)
   \<and> PromptNumberedMenu [''A'', ''B''] '': '' ''Pick:'' ''> '' [] [] [] [] [] []
         \<lparr>cin = [''99999999999'', ''2''], cout = [], cerr = []\<rparr> =
       (- 1, \<lparr>cin = [''2''],
              cout = ''Pick:\<newline>1: A'' @ RESET @ ''\<newline>2: B'' @ RESET @ ''\<newline>\<newline>> ''
                @ ''The number you entered is out of range. Please try again.\<newline>\<newline>''
                @ RESET @ RESET,
              cerr = []\<rparr>)
   \<and> PromptNumberedMenu [''A'', ''B''] '': '' ''Pick:'' ''> '' [] [] [] [] [] []
         \<lparr>cin = [''5'', ''2''], cout = [], cerr = []\<rparr> =
       (- 1, \<lparr>cin = [''2''],
              cout = ''Pick:\<newline>1: A'' @ RESET @ ''\<newline>2: B'' @ RESET @ ''\<newline>\<newline>> ''
                @ ''Invalid choice. Please enter a number between 1 and 2.\<newline>\<newline>''
                @ RESET @ RESET,
              cerr = []\<rparr>)"
proof -
  have h1: "[''A'', ''B''] \<noteq> []"
    by simp
  have h3: "cin \<lparr>cin = line # [''2''], cout = [], cerr = []\<rparr> = line # [''2'']" for line
    by simp
  have h4: "\<forall>v. stoi line = Inr v \<longrightarrow> v < 1 \<or> int (length [''A'', ''B'']) < v"
    if "line \<in> {''abc'', ''99999999999'', ''5''}" for line
    using that by (auto simp: stoi_examples)
  have two: "dec 2 = ''2''"
    by code_simp
  note run = PromptNumberedMenu_invalid_line [OF h1 h3 h4, of _ "'': ''" "''Pick:''" "''> ''"
      "[]" "[]" "[]" "[]" "[]" "[]"]
  show ?thesis
    using run [of "''abc''"] run [of "''99999999999''"] run [of "''5''"]
    by (simp add: stoi_examples print_menu_AB two)
qed

text \<open>
  A line that only starts with an integer is not rejected: \<open>2xyz\<close> is read as 2 and
  selects the second option, with no error message.
\<close>

lemma PromptNumberedMenu_numeric_prefix:
  "stoi ''2xyz'' = Inr 2
   \<and> PromptNumberedMenu [''A'', ''B''] '': '' ''Pick:'' ''> '' [] [] [] [] [] []
         \<lparr>cin = [''2xyz'', ''1''], cout = [], cerr = []\<rparr> =
       (1, \<lparr>cin = [''1''],
            cout = ''Pick:\<newline>1: A'' @ RESET @ ''\<newline>2: B'' @ RESET @ ''\<newline>\<newline>> '' @ RESET,
            cerr = []\<rparr>)"
  by code_simp

section \<open>Properties of the arithmetic\<close>

text \<open>
  Two known values of binary64 arithmetic, as a check of the model: the \<^verbatim>\<open>double\<close>
  nearest to one tenth, and 29 of 100 coming out as 28 percent because \<open>0.29 * 100\<close> is
  rounded to a number just below 29.
\<close>

lemma double_one_tenth: "round53 (1 / 10) = 3602879701896397 / 36028797018963968"
  by code_simp

lemma double_29_percent: "to_int (fmul_int (fdiv_int 29 100) 100) = Inr 28"
  by code_simp

lemma pow2_powi: "pow2 e = 2 powi e"
  by (simp add: pow2_def power_int_def power_inverse field_simps)

lemma pow2_pos: "0 < pow2 e"
  by (simp add: pow2_powi zero_less_power_int)

lemma pow2_add: "pow2 (a + b) = pow2 a * pow2 b"
  by (simp add: pow2_powi power_int_add)

lemma pow2_nat: "0 \<le> e \<Longrightarrow> pow2 e = 2 ^ nat e"
  by (simp add: pow2_def)

lemma pow2_le_iff: "pow2 a \<le> pow2 b \<longleftrightarrow> a \<le> b"
proof
  assume "pow2 a \<le> pow2 b"
  show "a \<le> b"
  proof (rule ccontr)
    assume "\<not> a \<le> b"
    then have "b < a" by simp
    then have "(2::rat) powi b < 2 powi a"
      by (rule power_int_strict_increasing) simp
    with \<open>pow2 a \<le> pow2 b\<close> show False
      by (simp add: pow2_powi)
  qed
next
  assume "a \<le> b"
  then show "pow2 a \<le> pow2 b"
    by (simp add: pow2_powi power_int_increasing)
qed

text \<open>
  \<open>bitlen\<close> counts binary digits, and \<open>binade\<close> finds the power of two below a
  positive rational.
\<close>

lemma bitlen_bounds:
  "0 < a \<Longrightarrow> 1 \<le> bitlen a \<and> 2 ^ nat (bitlen a - 1) \<le> a \<and> a < 2 ^ nat (bitlen a)"
proof (induction a rule: bitlen.induct)
  case (1 n)
  show ?case
  proof (cases "n = 1")
    case True
    have "bitlen 1 = 1"
      by (simp add: bitlen.simps [of 1] bitlen.simps [of 0])
    with True show ?thesis
      by simp
  next
    case False
    with "1.prems" have pos: "0 < n div 2"
      by simp
    from "1.prems" have "\<not> n \<le> 0"
      by simp
    from "1.IH" [OF this pos] have ih: "1 \<le> bitlen (n div 2)"
      "2 ^ nat (bitlen (n div 2) - 1) \<le> n div 2" "n div 2 < 2 ^ nat (bitlen (n div 2))"
      by simp_all
    have b: "bitlen n = 1 + bitlen (n div 2)"
      using "1.prems" by (simp add: bitlen.simps [of n])
    have e1: "nat (bitlen n - 1) = Suc (nat (bitlen (n div 2) - 1))"
      using ih(1) b by simp
    have e2: "nat (bitlen n) = Suc (nat (bitlen (n div 2)))"
      using ih(1) b by simp
    have "2 * (n div 2) \<le> n"
      by simp
    with ih(2) have lower: "2 ^ nat (bitlen n - 1) \<le> n"
      unfolding e1 by simp
    have "n < 2 * (n div 2) + 2"
      by presburger
    with ih(3) have upper: "n < 2 ^ nat (bitlen n)"
      unfolding e2 by simp
    from b ih(1) lower upper show ?thesis
      by simp
  qed
qed

lemma bitlen_pow2:
  assumes "0 < a"
  shows "pow2 (bitlen a - 1) \<le> of_int a" and "of_int a < pow2 (bitlen a)"
proof -
  from bitlen_bounds [OF assms] have b: "1 \<le> bitlen a"
    "2 ^ nat (bitlen a - 1) \<le> a" "a < 2 ^ nat (bitlen a)"
    by simp_all
  have "(of_int (2 ^ nat (bitlen a - 1)) :: rat) \<le> of_int a"
    using b(2) by (simp only: of_int_le_iff)
  then show "pow2 (bitlen a - 1) \<le> of_int a"
    using b(1) by (simp add: pow2_nat)
  have "(of_int a :: rat) < of_int (2 ^ nat (bitlen a))"
    using b(3) by (simp only: of_int_less_iff)
  then show "of_int a < pow2 (bitlen a)"
    using b(1) by (simp add: pow2_nat)
qed

lemma binade_bounds:
  assumes "0 < q"
  shows "pow2 (binade q) \<le> q" and "q < pow2 (binade q + 1)"
proof -
  obtain a b where ab: "quotient_of q = (a, b)"
    by (cases "quotient_of q")
  then have bpos: "0 < b"
    by (rule quotient_of_denom_pos)
  from ab have q: "q = of_int a / of_int b"
    by (rule quotient_of_div)
  with assms bpos have apos: "0 < a"
    by (simp add: zero_less_divide_iff)
  define e0 where "e0 = bitlen a - bitlen b"
  have bin: "binade q = (if pow2 e0 \<le> q then e0 else e0 - 1)"
    by (simp add: binade_def ab e0_def)
  note A = bitlen_pow2 [OF apos]
  note B = bitlen_pow2 [OF bpos]
  have bq: "(0::rat) < of_int b"
    using bpos by simp
  have "pow2 (e0 - 1) * of_int b \<le> pow2 (e0 - 1) * pow2 (bitlen b)"
    using B(2) pow2_pos [of "e0 - 1"] by (simp add: mult_left_mono)
  also have "\<dots> = pow2 (bitlen a - 1)"
    by (simp add: e0_def pow2_add [symmetric])
  also have "\<dots> \<le> of_int a"
    by (rule A(1))
  finally have "pow2 (e0 - 1) * of_int b \<le> of_int a" .
  then have lower: "pow2 (e0 - 1) \<le> q"
    using bq by (simp add: q pos_le_divide_eq)
  have "of_int a < pow2 (bitlen a)"
    by (rule A(2))
  also have "\<dots> = pow2 (e0 + 1) * pow2 (bitlen b - 1)"
    by (simp add: e0_def pow2_add [symmetric])
  also have "\<dots> \<le> pow2 (e0 + 1) * of_int b"
    using B(1) pow2_pos [of "e0 + 1"] by (simp add: mult_left_mono)
  finally have "of_int a < pow2 (e0 + 1) * of_int b" .
  then have upper: "q < pow2 (e0 + 1)"
    using bq by (simp add: q pos_divide_less_eq)
  show "pow2 (binade q) \<le> q"
    using lower by (simp add: bin)
  show "q < pow2 (binade q + 1)"
    using upper by (auto simp: bin not_le)
qed


text \<open>Rounding to an integer, and to 53 bits, never passes an integer bound.\<close>

lemma round_half_even_le:
  assumes "r \<le> of_int n"
  shows "round_half_even r \<le> n"
proof (cases "\<lfloor>r\<rfloor> = n")
  case True
  with assms have "r = of_int \<lfloor>r\<rfloor>"
    using of_int_floor_le [of r] by simp
  then have "r - of_int \<lfloor>r\<rfloor> < 1 / 2"
    by simp
  with True show ?thesis
    by (simp add: round_half_even_def Let_def)
next
  case False
  from assms have "\<lfloor>r\<rfloor> \<le> n"
    by (simp add: floor_le_iff)
  with False have "\<lfloor>r\<rfloor> + 1 \<le> n"
    by simp
  then show ?thesis
    by (simp add: round_half_even_def Let_def)
qed

lemma round_half_even_ge:
  assumes "of_int n \<le> r"
  shows "n \<le> round_half_even r"
proof -
  from assms have "n \<le> \<lfloor>r\<rfloor>"
    by (simp add: le_floor_iff)
  then show ?thesis
    by (simp add: round_half_even_def Let_def)
qed

lemma round_half_even_of_int: "round_half_even (of_int n) = n"
  by (simp add: round_half_even_def)

lemma round53_minus: "round53 (- q) = - round53 q"
  by (simp add: round53_def Let_def sgn_minus)

lemma round53_pos:
  "0 < q \<Longrightarrow> round53 q = of_int (round_half_even (q / pow2 (binade q - 52))) * pow2 (binade q - 52)"
  by (simp add: round53_def Let_def)

lemma round53_nonneg:
  assumes "0 \<le> q"
  shows "0 \<le> round53 q"
proof (cases "q = 0")
  case True
  then show ?thesis
    by (simp add: round53_def)
next
  case False
  with assms have q: "0 < q"
    by simp
  let ?u = "pow2 (binade q - 52)"
  have "of_int 0 \<le> q / ?u"
    using q pow2_pos [of "binade q - 52"] by simp
  then have "0 \<le> round_half_even (q / ?u)"
    by (rule round_half_even_ge)
  then show ?thesis
    using pow2_pos [of "binade q - 52"] by (simp add: round53_pos [OF q])
qed

lemma scaled_int:
  assumes "0 < q" and "q \<le> of_int k" and "k \<le> 2 ^ 52"
  shows "\<exists>N. pow2 (binade q - 52) = 1 / 2 ^ N"
proof -
  have "pow2 (binade q) \<le> q"
    using assms(1) by (rule binade_bounds)
  also have "q \<le> of_int k"
    by (rule assms(2))
  also have "(of_int k :: rat) \<le> of_int (2 ^ 52)"
    using assms(3) by (simp only: of_int_le_iff)
  also have "(of_int (2 ^ 52) :: rat) = pow2 52"
    by (simp add: pow2_def)
  finally have "binade q \<le> 52"
    by (simp only: pow2_le_iff)
  then show ?thesis
    by (cases "binade q = 52") (auto simp: pow2_def intro: exI [of _ 0])
qed

lemma round53_le_int:
  assumes "0 \<le> q" and "q \<le> of_int k" and "k \<le> 2 ^ 52"
  shows "round53 q \<le> of_int k"
proof (cases "q = 0")
  case True
  with assms show ?thesis
    by (simp add: round53_def)
next
  case False
  with assms have q: "0 < q"
    by simp
  from scaled_int [OF q assms(2,3)] obtain N where u: "pow2 (binade q - 52) = 1 / 2 ^ N"
    by blast
  have "q / pow2 (binade q - 52) = q * 2 ^ N"
    by (simp add: u)
  also have "\<dots> \<le> of_int k * 2 ^ N"
    using assms(2) by simp
  also have "\<dots> = of_int (k * 2 ^ N)"
    by simp
  finally have "round_half_even (q / pow2 (binade q - 52)) \<le> k * 2 ^ N"
    by (rule round_half_even_le)
  then have "(of_int (round_half_even (q / pow2 (binade q - 52))) :: rat) \<le> of_int (k * 2 ^ N)"
    by (simp only: of_int_le_iff)
  then have "of_int (round_half_even (q / pow2 (binade q - 52))) * (1 / 2 ^ N) \<le> (of_int k :: rat)"
    by (simp add: field_simps)
  then show ?thesis
    by (simp add: round53_pos [OF q] u)
qed

lemma round53_of_int:
  assumes "\<bar>k\<bar> \<le> 2 ^ 52"
  shows "round53 (of_int k) = of_int k"
proof -
  have pos: "round53 (of_int j) = of_int j" if "0 < j" "j \<le> 2 ^ 52" for j :: int
  proof -
    have q: "(0::rat) < of_int j"
      using that(1) by simp
    from scaled_int [OF q order_refl that(2)] obtain N
      where u: "pow2 (binade (of_int j) - 52) = 1 / 2 ^ N"
      by blast
    have "of_int j / pow2 (binade (of_int j) - 52) = (of_int (j * 2 ^ N) :: rat)"
      by (simp add: u)
    then have "round_half_even (of_int j / pow2 (binade (of_int j) - 52)) = j * 2 ^ N"
      by (simp only: round_half_even_of_int)
    then have "round53 (of_int j) = of_int (j * 2 ^ N) * (1 / 2 ^ N)"
      by (simp only: round53_pos [OF q] u)
    then show ?thesis
      by simp
  qed
  consider "k = 0" | "0 < k" | "k < 0"
    by linarith
  then show ?thesis
  proof cases
    case 1
    then show ?thesis
      by (simp add: round53_def)
  next
    case 2
    with assms show ?thesis
      by (simp add: pos)
  next
    case 3
    with assms have "round53 (of_int (- k)) = of_int (- k)"
      by (intro pos) simp_all
    then show ?thesis
      by (simp add: round53_minus)
  qed
qed


text \<open>
  The progress fraction of a clamped value lies between 0 and 1, and a fraction in that
  range scaled by an \<^verbatim>\<open>int\<close> converts back to an \<^verbatim>\<open>int\<close> between 0 and the scale.
\<close>

lemma fdiv_int_unit:
  assumes "b \<noteq> 0" and "\<bar>a\<bar> \<le> 2 ^ 52" and "\<bar>b\<bar> \<le> 2 ^ 52"
    and "0 \<le> a \<and> a \<le> b \<or> b \<le> a \<and> a \<le> 0"
  shows "\<exists>p. fdiv_int a b = Finite p \<and> 0 \<le> p \<and> p \<le> 1"
proof -
  let ?q = "(of_int a :: rat) / of_int b"
  have lo: "0 \<le> ?q"
    using assms(1,4) by (auto simp: zero_le_divide_iff)
  have hi: "?q \<le> of_int 1"
    using assms(1,4) by (auto simp: divide_le_eq_1)
  have "round53 ?q \<le> of_int 1"
    using lo hi by (rule round53_le_int) simp
  moreover have "0 \<le> round53 ?q"
    using lo by (rule round53_nonneg)
  moreover have "fdiv_int a b = Finite (round53 ?q)"
    using assms(1-3) by (simp add: fdiv_int_def round53_of_int)
  ultimately show ?thesis
    by simp
qed

lemma to_int_scaled:
  assumes "0 \<le> p" and "p \<le> 1" and "INT_MIN \<le> w" and "w \<le> INT_MAX"
  shows "\<exists>t. to_int (fmul_int (Finite p) w) = Inr t
           \<and> (0 \<le> w \<longrightarrow> 0 \<le> t \<and> t \<le> w) \<and> (w \<le> 0 \<longrightarrow> w \<le> t \<and> t \<le> 0)"
proof -
  have wb: "\<bar>w\<bar> \<le> 2 ^ 52"
    using assms(3,4) by (simp add: INT_MIN_def INT_MAX_def)
  define x where "x = round53 (p * of_int w)"
  have f: "fmul_int (Finite p) w = Finite x"
    using wb by (simp add: round53_of_int x_def)
  have conv: "to_int (Finite x) = Inr t"
    if "trunc_to_zero x = t" "INT_MIN \<le> t" "t \<le> INT_MAX" for t
    using that by simp
  show ?thesis
  proof (cases "0 \<le> w")
    case True
    then have q0: "0 \<le> p * of_int w"
      using assms(1) by simp
    have "p * of_int w \<le> 1 * (of_int w :: rat)"
      using assms(2) True by (intro mult_right_mono) simp_all
    then have q1: "p * of_int w \<le> of_int w"
      by simp
    have x0: "0 \<le> x"
      unfolding x_def using q0 by (rule round53_nonneg)
    have x1: "x \<le> of_int w"
      unfolding x_def using q0 q1 wb by (intro round53_le_int) simp_all
    from x0 x1 have fl: "0 \<le> \<lfloor>x\<rfloor>" "\<lfloor>x\<rfloor> \<le> w"
      by (simp_all add: floor_le_iff)
    have tr: "trunc_to_zero x = \<lfloor>x\<rfloor>"
      using x0 by (simp add: trunc_to_zero_def)
    have "INT_MIN \<le> \<lfloor>x\<rfloor>" and "\<lfloor>x\<rfloor> \<le> INT_MAX"
      using fl assms(4) by (simp_all add: INT_MIN_def)
    with tr have "to_int (Finite x) = Inr \<lfloor>x\<rfloor>"
      by (rule conv)
    with fl True show ?thesis
      unfolding f by auto
  next
    case False
    then have wneg: "w < 0"
      by simp
    have q0: "0 \<le> - (p * of_int w)"
      using assms(1) wneg by (simp add: mult_nonneg_nonpos)
    have "p * of_int (- w) \<le> 1 * (of_int (- w) :: rat)"
      using assms(2) wneg by (intro mult_right_mono) simp_all
    then have q1: "- (p * of_int w) \<le> of_int (- w)"
      by simp
    have y0: "0 \<le> round53 (- (p * of_int w))"
      using q0 by (rule round53_nonneg)
    have y1: "round53 (- (p * of_int w)) \<le> of_int (- w)"
      using q0 q1 wb by (intro round53_le_int) simp_all
    from y0 y1 have x0: "x \<le> 0" and x1: "of_int w \<le> x"
      by (simp_all add: round53_minus x_def)
    from x0 x1 have c: "\<lceil>x\<rceil> \<le> 0" "w \<le> \<lceil>x\<rceil>"
      by (simp_all add: ceiling_le_iff le_ceiling_iff)
    have tr: "trunc_to_zero x = \<lceil>x\<rceil>"
      using x0 by (cases "x = 0") (simp_all add: trunc_to_zero_def)
    have "INT_MIN \<le> \<lceil>x\<rceil>" and "\<lceil>x\<rceil> \<le> INT_MAX"
      using c assms(3) by (simp_all add: INT_MAX_def)
    with tr have "to_int (Finite x) = Inr \<lceil>x\<rceil>"
      by (rule conv)
    with c wneg show ?thesis
      unfolding f by auto
  qed
qed

section \<open>ProgressBar\<close>

text \<open>
  Claim C1 says that \<open>ProgressBar\<close> guards a maximum of 0 and renders 0 percent. The
  function divides without a guard: the clamped progress is 0, the quotient of 0 by 0 is
  NaN, and converting NaN to \<^verbatim>\<open>int\<close> for the filled width has no defined result. No bar
  is rendered, for any width and any current value.
\<close>

theorem ProgressBar_zero_max_undefined:
  "ProgressBar current 0 width barColor showPercentage percentColor = Inl Undefined_conversion"
proof -
  define clamped where
    "clamped = (if (if current > 0 then 0 else current) < 0 then 0
                else (if current > 0 then 0 else current))"
  have "clamped = 0"
    by (simp add: clamped_def)
  then have "fdiv_int clamped 0 = NaN"
    by (simp add: fdiv_int_def)
  then have "to_int (fmul_int (fdiv_int clamped 0) width) = Inl Undefined_conversion"
    by simp
  then show ?thesis
    unfolding clamped_def by (simp add: ProgressBar_def Let_def)
qed

text \<open>
  The sibling \<open>AdvancedProgressBar\<close> has the guard: with a maximum of 0 it renders no
  filled character, \<open>width\<close> unfilled ones, and the text \<open>0%\<close>.
\<close>

lemma round53_zero: "round53 0 = 0"
  by (simp add: round53_def)

lemma to_int_zero: "to_int (Finite 0) = Inr 0"
  by (simp add: trunc_to_zero_def INT_MIN_def INT_MAX_def)

lemma to_string_zero: "to_string 0 = ''0''"
  by code_simp

lemma AdvancedProgressBar_zero_max:
  "AdvancedProgressBar current 0 width [] [] fillChar unfillChar fillColor unfillColor textColor
     prefixColor suffixColor bracketColor True False True =
   Inr (fillColor @ unfillColor @ concat (replicate (nat width) unfillChar) @ textColor
          @ '' 0%'' @ RESET)"
  by (simp add: AdvancedProgressBar_def Let_def round53_zero to_int_zero to_string_zero
      append_loop_acc del: to_int.simps)

text \<open>
  With any other maximum and arguments that are values of \<^verbatim>\<open>int\<close>, the conversions are
  defined and a bar is rendered.
\<close>

lemma ProgressBar_renders:
  assumes "maxp \<noteq> 0"
    and "INT_MIN \<le> current" "current \<le> INT_MAX"
    and "INT_MIN \<le> maxp" "maxp \<le> INT_MAX"
    and "INT_MIN \<le> width" "width \<le> INT_MAX"
  shows "\<exists>bar. ProgressBar current maxp width barColor showPercentage percentColor = Inr bar"
proof -
  define c where "c = (if (if current > maxp then maxp else current) < 0 then 0
                       else (if current > maxp then maxp else current))"
  have c1: "\<bar>c\<bar> \<le> 2 ^ 52"
    using assms(2-5) by (simp add: c_def INT_MIN_def INT_MAX_def)
  have c2: "0 \<le> c \<and> c \<le> maxp \<or> maxp \<le> c \<and> c \<le> 0"
    by (auto simp: c_def)
  have m: "\<bar>maxp\<bar> \<le> 2 ^ 52"
    using assms(4,5) by (simp add: INT_MIN_def INT_MAX_def)
  from fdiv_int_unit [OF assms(1) c1 m c2] obtain p
    where p: "fdiv_int c maxp = Finite p" "0 \<le> p" "p \<le> 1"
    by blast
  from to_int_scaled [OF p(2,3) assms(6,7)] obtain fw
    where fw: "to_int (fmul_int (Finite p) width) = Inr fw"
    by blast
  have "INT_MIN \<le> 100" and "100 \<le> INT_MAX"
    by (simp_all add: INT_MIN_def INT_MAX_def)
  from to_int_scaled [OF p(2,3) this] obtain pc
    where pc: "to_int (fmul_int (Finite p) 100) = Inr pc"
    by blast
  show ?thesis
    using p(1) fw pc
    by (simp add: ProgressBar_def Let_def c_def [symmetric] del: fmul_int.simps to_int.simps)
qed

text \<open>
  Claim C3. For every integer \<open>current\<close>, \<open>ProgressBar\<close> clamps it into 0 to \<open>max\<close> before
  anything is computed: when \<open>max > 0\<close>, a negative \<open>current\<close> renders as 0 does and a
  \<open>current\<close> above \<open>max\<close> renders as \<open>max\<close> does.
\<close>

theorem ProgressBar_clamps:
  assumes "0 < maxp"
  shows "ProgressBar current maxp width barColor showPercentage percentColor =
           ProgressBar (max 0 (min current maxp)) maxp width barColor showPercentage percentColor
         \<and> (current < 0 \<longrightarrow>
              ProgressBar current maxp width barColor showPercentage percentColor =
              ProgressBar 0 maxp width barColor showPercentage percentColor)
         \<and> (maxp < current \<longrightarrow>
              ProgressBar current maxp width barColor showPercentage percentColor =
              ProgressBar maxp maxp width barColor showPercentage percentColor)"
  using assms by (simp add: ProgressBar_def Let_def max_def min_def)

lemma ProgressBar_none:
  "ProgressBar 0 10 10 GREEN True WHITE =
   Inr (GREEN @ ''----------'' @ RESET @ '' '' @ WHITE @ ''0%'' @ RESET)"
  by code_simp

lemma ProgressBar_full:
  "ProgressBar 10 10 10 GREEN True WHITE =
   Inr (GREEN @ ''##########'' @ RESET @ '' '' @ WHITE @ ''100%'' @ RESET)"
  by code_simp

text \<open>With a maximum of 10, \<open>-5\<close> renders the empty bar and \<open>15\<close> the full one.\<close>

theorem ProgressBar_clamps_witness:
  "(0::int) < 10 \<and> (- 5::int) < 0 \<and> (10::int) < 15
   \<and> ProgressBar (- 5) 10 10 GREEN True WHITE =
       Inr (GREEN @ ''----------'' @ RESET @ '' '' @ WHITE @ ''0%'' @ RESET)
   \<and> ProgressBar 15 10 10 GREEN True WHITE =
       Inr (GREEN @ ''##########'' @ RESET @ '' '' @ WHITE @ ''100%'' @ RESET)"
proof -
  have h: "(0::int) < 10"
    by simp
  have a: "ProgressBar (- 5) 10 10 GREEN True WHITE = ProgressBar 0 10 10 GREEN True WHITE"
    using ProgressBar_clamps [OF h, of "- 5" 10 GREEN True WHITE] by simp
  have b: "ProgressBar 15 10 10 GREEN True WHITE = ProgressBar 10 10 10 GREEN True WHITE"
    using ProgressBar_clamps [OF h, of 15 10 GREEN True WHITE] by simp
  show ?thesis
    by (simp only: a b ProgressBar_none ProgressBar_full) simp
qed

section \<open>AdvancedProgressBar\<close>

text \<open>
  \<open>AdvancedProgressBar\<close> renders a bar for all arguments that are values of \<^verbatim>\<open>int\<close>,
  a maximum of 0 included.
\<close>

lemma AdvancedProgressBar_renders:
  assumes "INT_MIN \<le> current" "current \<le> INT_MAX"
    and "INT_MIN \<le> maxp" "maxp \<le> INT_MAX"
    and "INT_MIN \<le> width" "width \<le> INT_MAX"
  shows "\<exists>bar. AdvancedProgressBar current maxp width prefixText suffixText fillChar unfillChar
           fillColor unfillColor textColor prefixColor suffixColor bracketColor showPercentage
           showBrackets resetOnCompletion = Inr bar"
proof -
  define c where "c = (if (if current < 0 then 0 else current) > maxp then maxp
                       else (if current < 0 then 0 else current))"
  define progress where "progress = (if maxp \<noteq> 0 then fdiv_int c maxp else Finite 0)"
  have "\<exists>p. progress = Finite p \<and> 0 \<le> p \<and> p \<le> 1"
  proof (cases "maxp = 0")
    case True
    then show ?thesis
      by (simp add: progress_def)
  next
    case False
    have c1: "\<bar>c\<bar> \<le> 2 ^ 52"
      using assms(1-4) by (auto simp: c_def INT_MIN_def INT_MAX_def)
    have c2: "0 \<le> c \<and> c \<le> maxp \<or> maxp \<le> c \<and> c \<le> 0"
      by (auto simp: c_def)
    have m: "\<bar>maxp\<bar> \<le> 2 ^ 52"
      using assms(3,4) by (simp add: INT_MIN_def INT_MAX_def)
    from fdiv_int_unit [OF False c1 m c2] False show ?thesis
      by (simp add: progress_def)
  qed
  then obtain p where p: "progress = Finite p" "0 \<le> p" "p \<le> 1"
    by blast
  from to_int_scaled [OF p(2,3) assms(5,6)] obtain fw
    where fw: "to_int (fmul_int progress width) = Inr fw"
    unfolding p(1) by blast
  have "INT_MIN \<le> 100" and "100 \<le> INT_MAX"
    by (simp_all add: INT_MIN_def INT_MAX_def)
  from to_int_scaled [OF p(2,3) this] obtain pc
    where pc: "to_int (fmul_int progress 100) = Inr pc"
    unfolding p(1) by blast
  show ?thesis
    using fw pc unfolding progress_def c_def
    by (cases showPercentage)
      (simp_all add: AdvancedProgressBar_def Let_def del: fmul_int.simps to_int.simps
        split del: if_split)
qed

text \<open>
  Claim C5. The output of \<open>AdvancedProgressBar\<close> is the output for empty prefix and suffix
  texts, which does not depend on the prefix and suffix colours, with the prefix colour
  and text put in front only when the prefix text is not empty, and a space, the suffix
  colour and the suffix text put behind (before the optional reset) only when the
  suffix text is not empty. An empty text contributes nothing, not even its colour code
  or the separating space.
\<close>

theorem AdvancedProgressBar_prefix_suffix:
  "AdvancedProgressBar current maxp width prefixText suffixText fillChar unfillChar fillColor
     unfillColor textColor prefixColor suffixColor bracketColor showPercentage showBrackets
     resetOnCompletion =
   (case AdvancedProgressBar current maxp width [] [] fillChar unfillChar fillColor
           unfillColor textColor anyPrefixColor anySuffixColor bracketColor showPercentage
           showBrackets False of
      Inl e \<Rightarrow> Inl e
    | Inr body \<Rightarrow>
        Inr ((if prefixText = [] then [] else prefixColor @ prefixText)
             @ body
             @ (if suffixText = [] then [] else '' '' @ suffixColor @ suffixText)
             @ (if resetOnCompletion then RESET else [])))"
  by (cases "prefixText = []"; cases "suffixText = []"; cases showPercentage;
      cases showBrackets; cases resetOnCompletion;
      simp add: AdvancedProgressBar_def Let_def append_loop_acc del: fmul_int.simps to_int.simps
        split del: if_split split: sum.splits)

lemma AdvancedProgressBar_bare:
  "AdvancedProgressBar 5 10 10 [] [] ''#'' ''-'' GREEN WHITE WHITE LIGHT_RED LIGHT_YELLOW WHITE
     True True False =
   Inr (WHITE @ ''['' @ GREEN @ ''#####'' @ WHITE @ ''-----'' @ WHITE @ '']'' @ WHITE @ '' 50%'')"
  by code_simp

text \<open>
  A half-full bar with and without prefix and suffix texts: without them the light red
  prefix colour and the light yellow suffix colour are absent from the output.
\<close>

theorem AdvancedProgressBar_prefix_suffix_witness:
  "AdvancedProgressBar 5 10 10 ''Loading'' ''Done'' ''#'' ''-'' GREEN WHITE WHITE LIGHT_RED
     LIGHT_YELLOW WHITE True True True =
   Inr (LIGHT_RED @ ''Loading''
        @ WHITE @ ''['' @ GREEN @ ''#####'' @ WHITE @ ''-----'' @ WHITE @ '']'' @ WHITE @ '' 50%''
        @ '' '' @ LIGHT_YELLOW @ ''Done'' @ RESET)
   \<and> AdvancedProgressBar 5 10 10 [] [] ''#'' ''-'' GREEN WHITE WHITE LIGHT_RED
     LIGHT_YELLOW WHITE True True True =
   Inr (WHITE @ ''['' @ GREEN @ ''#####'' @ WHITE @ ''-----'' @ WHITE @ '']'' @ WHITE @ '' 50%''
        @ RESET)"
  using
    AdvancedProgressBar_prefix_suffix [where current = 5 and maxp = 10 and width = 10
      and prefixText = "''Loading''" and suffixText = "''Done''" and fillChar = "''#''"
      and unfillChar = "''-''" and fillColor = GREEN and unfillColor = WHITE
      and textColor = WHITE and prefixColor = LIGHT_RED and suffixColor = LIGHT_YELLOW
      and bracketColor = WHITE and showPercentage = True and showBrackets = True
      and resetOnCompletion = True and anyPrefixColor = LIGHT_RED
      and anySuffixColor = LIGHT_YELLOW]
    AdvancedProgressBar_prefix_suffix [where current = 5 and maxp = 10 and width = 10
      and prefixText = "[]" and suffixText = "[]" and fillChar = "''#''"
      and unfillChar = "''-''" and fillColor = GREEN and unfillColor = WHITE
      and textColor = WHITE and prefixColor = LIGHT_RED and suffixColor = LIGHT_YELLOW
      and bracketColor = WHITE and showPercentage = True and showBrackets = True
      and resetOnCompletion = True and anyPrefixColor = LIGHT_RED
      and anySuffixColor = LIGHT_YELLOW]
  by (simp add: AdvancedProgressBar_bare)

end
